theory Spec2Isabelle
  imports Main "HOL-Library.Sublist"
begin

section \<open>The user collection of server/resolvers.js\<close>

text \<open>
  The module keeps one array, \<^verbatim>\<open>users\<close>, and exports four resolver functions that read
  or mutate it. An entry is an object with three string fields. The array is the state:
  every resolver takes it and returns its result together with the array afterwards.
  A thrown \<^verbatim>\<open>Error\<close> is the \<open>Inl\<close> branch of the result.

  Entries are never modified after they are built, so an object is modelled by its value.
  Arrays are lists of any length (the engine's bound on array lengths is far beyond what a
  process can hold and is left out). The field \<^verbatim>\<open>id\<close> is written \<open>id'\<close>.
\<close>

record user =
  id' :: string
  username :: string
  email :: string

datatype error = Error string

subsection \<open>The built-in operations the resolvers call\<close>

text \<open>\<^verbatim>\<open>String(n)\<close> on a non-negative integer: its decimal digits, most significant first.\<close>

definition digit :: "nat \<Rightarrow> char" where
  "digit d = ''0123456789'' ! d"

fun String_js :: "nat \<Rightarrow> string" where
  "String_js n = (if n < 10 then [digit n] else String_js (n div 10) @ [digit (n mod 10)])"

declare String_js.simps [simp del]

text \<open>
  \<^verbatim>\<open>Array.prototype.find\<close>: the first element, from index 0 upwards, on which the callback
  is true; \<^verbatim>\<open>undefined\<close> (here \<open>None\<close>) when there is none.
\<close>

fun find_js :: "('a \<Rightarrow> bool) \<Rightarrow> 'a list \<Rightarrow> 'a option" where
  "find_js P [] = None"
| "find_js P (x # xs) = (if P x then Some x else find_js P xs)"

text \<open>
  \<^verbatim>\<open>Array.prototype.findIndex\<close>: the index of that element, \<open>-1\<close> when there is none.
  The loop counter is the last argument.
\<close>

fun findIndex_from :: "('a \<Rightarrow> bool) \<Rightarrow> 'a list \<Rightarrow> int \<Rightarrow> int" where
  "findIndex_from P [] k = - 1"
| "findIndex_from P (x # xs) k = (if P x then k else findIndex_from P xs (k + 1))"

definition findIndex :: "('a \<Rightarrow> bool) \<Rightarrow> 'a list \<Rightarrow> int" where
  "findIndex P xs = findIndex_from P xs 0"

text \<open>\<^verbatim>\<open>Array.prototype.push\<close> with one argument (its return value, the new length, is unused).\<close>

definition push :: "'a list \<Rightarrow> 'a \<Rightarrow> 'a list" where
  "push xs x = xs @ [x]"

text \<open>
  \<^verbatim>\<open>Array.prototype.splice(start, deleteCount)\<close>: a negative start counts from the end,
  both arguments are clamped to the array; the result is the array of removed elements
  paired with the array afterwards.
\<close>

definition splice :: "'a list \<Rightarrow> int \<Rightarrow> int \<Rightarrow> 'a list \<times> 'a list" where
  "splice xs start deleteCount =
     (let len = int (length xs);
          actualStart = (if start < 0 then max (len + start) 0 else min start len);
          actualDeleteCount = min (max deleteCount 0) (len - actualStart)
      in (take (nat actualDeleteCount) (drop (nat actualStart) xs),
          take (nat actualStart) xs @ drop (nat (actualStart + actualDeleteCount)) xs))"

text \<open>Reading index 0 of an array: \<^verbatim>\<open>undefined\<close> (here \<open>None\<close>) when it is empty.\<close>

definition index0 :: "'a list \<Rightarrow> 'a option" where
  "index0 xs = (case xs of [] \<Rightarrow> None | x # _ \<Rightarrow> Some x)"

subsection \<open>The seeded array and the resolvers\<close>

definition users_init :: "user list" where
  "users_init =
     [\<lparr>id' = ''1'', username = ''john_doe'', email = ''john@example.com''\<rparr>,
      \<lparr>id' = ''2'', username = ''jane_smith'', email = ''jane@example.com''\<rparr>]"

definition Query_users :: "user list \<Rightarrow> (error + user list) \<times> user list" where
  "Query_users users = (Inr users, users)"

definition Query_user :: "string \<Rightarrow> user list \<Rightarrow> (error + user option) \<times> user list" where
  "Query_user i users = (Inr (find_js (\<lambda>user. id' user = i) users), users)"

definition Mutation_createUser ::
  "string \<Rightarrow> string \<Rightarrow> user list \<Rightarrow> (error + user) \<times> user list" where
  "Mutation_createUser un em users =
     (let user = \<lparr>id' = String_js (length users + 1), username = un, email = em\<rparr>;
          users' = push users user
      in (Inr user, users'))"

definition Mutation_deleteUser ::
  "string \<Rightarrow> user list \<Rightarrow> (error + user option) \<times> user list" where
  "Mutation_deleteUser i users =
     (let userIndex = findIndex (\<lambda>user. id' user = i) users
      in if userIndex = - 1 then (Inl (Error ''User not found''), users)
         else (let (removed, users') = splice users userIndex 1;
                   deletedUser = index0 removed
               in (Inr deletedUser, users')))"

subsection \<open>Sequences of mutations\<close>

text \<open>
  The server dispatches each mutation of a request to its resolver, on the array the
  previous one left. \<open>run\<close> is the array after a sequence of mutations (a failed
  \<^verbatim>\<open>deleteUser\<close> leaves its array and the next mutation goes on from there), and
  \<open>created\<close> lists the entries that the \<^verbatim>\<open>createUser\<close> calls of the sequence returned,
  in the order of the calls.
\<close>

datatype mutation = CreateUser string string | DeleteUser string

fun dispatch :: "mutation \<Rightarrow> user list \<Rightarrow> user list" where
  "dispatch (CreateUser un em) users = snd (Mutation_createUser un em users)"
| "dispatch (DeleteUser i) users = snd (Mutation_deleteUser i users)"

fun run :: "mutation list \<Rightarrow> user list \<Rightarrow> user list" where
  "run [] users = users"
| "run (m # ms) users = run ms (dispatch m users)"

fun created :: "mutation list \<Rightarrow> user list \<Rightarrow> user list" where
  "created [] users = []"
| "created (CreateUser un em # ms) users =
     (case fst (Mutation_createUser un em users) of Inr user \<Rightarrow> [user] | Inl e \<Rightarrow> [])
     @ created ms (dispatch (CreateUser un em) users)"
| "created (DeleteUser i # ms) users = created ms (dispatch (DeleteUser i) users)"

section \<open>Facts about the built-in operations\<close>

lemma findIndex_from_absent:
  "\<forall>x\<in>set xs. \<not> P x \<Longrightarrow> findIndex_from P xs k = - 1"
  by (induction xs arbitrary: k) auto

lemma findIndex_from_first:
  "\<forall>x\<in>set pre. \<not> P x \<Longrightarrow> P u \<Longrightarrow>
   findIndex_from P (pre @ u # post) k = k + int (length pre)"
  by (induction pre arbitrary: k) auto

lemma findIndex_absent:
  "\<forall>x\<in>set xs. \<not> P x \<Longrightarrow> findIndex P xs = - 1"
  by (simp add: findIndex_def findIndex_from_absent)

lemma findIndex_first:
  "\<forall>x\<in>set pre. \<not> P x \<Longrightarrow> P u \<Longrightarrow> findIndex P (pre @ u # post) = int (length pre)"
  by (simp add: findIndex_def findIndex_from_first)

lemma find_js_absent:
  "\<forall>x\<in>set xs. \<not> P x \<Longrightarrow> find_js P xs = None"
  by (induction xs) auto

lemma find_js_first:
  "\<forall>x\<in>set pre. \<not> P x \<Longrightarrow> P u \<Longrightarrow> find_js P (pre @ u # post) = Some u"
  by (induction pre) auto

lemma splice_one:
  "splice (pre @ u # post) (int (length pre)) 1 = ([u], pre @ post)"
proof -
  have next_index: "nat (int (length pre) + 1) = Suc (length pre)"
    by arith
  show ?thesis
    by (simp add: splice_def Let_def next_index)
qed

lemma first_match:
  assumes "\<exists>x\<in>set xs. P x"
  shows "\<exists>pre u post. xs = pre @ u # post \<and> P u \<and> (\<forall>x\<in>set pre. \<not> P x)"
  using assms
proof (induction xs)
  case Nil
  then show ?case by simp
next
  case (Cons a xs)
  show ?case
  proof (cases "P a")
    case True
    then have "a # xs = [] @ a # xs \<and> P a \<and> (\<forall>x\<in>set []. \<not> P x)" by simp
    then show ?thesis by blast
  next
    case False
    with Cons.prems have "\<exists>x\<in>set xs. P x" by auto
    with Cons.IH obtain pre u post
      where "xs = pre @ u # post" "P u" "\<forall>x\<in>set pre. \<not> P x" by blast
    with False have "a # xs = (a # pre) @ u # post \<and> P u \<and> (\<forall>x\<in>set (a # pre). \<not> P x)"
      by simp
    then show ?thesis by blast
  qed
qed

lemma deleteUser_absent:
  "\<forall>x\<in>set users. id' x \<noteq> i \<Longrightarrow>
   Mutation_deleteUser i users = (Inl (Error ''User not found''), users)"
  by (simp add: Mutation_deleteUser_def findIndex_absent)

lemma deleteUser_first:
  "\<forall>x\<in>set pre. id' x \<noteq> i \<Longrightarrow> id' u = i \<Longrightarrow>
   Mutation_deleteUser i (pre @ u # post) = (Inr (Some u), pre @ post)"
  by (simp add: Mutation_deleteUser_def findIndex_first splice_one index0_def)

lemma createUser_eq:
  "Mutation_createUser un em users =
     (Inr \<lparr>id' = String_js (length users + 1), username = un, email = em\<rparr>,
      users @ [\<lparr>id' = String_js (length users + 1), username = un, email = em\<rparr>])"
  by (simp add: Mutation_createUser_def push_def Let_def)

lemma deleteUser_subseq:
  "subseq (snd (Mutation_deleteUser i users)) users"
proof (cases "\<forall>u\<in>set users. id' u \<noteq> i")
  case True
  then show ?thesis
    by (simp add: deleteUser_absent)
next
  case False
  then have "\<exists>u\<in>set users. id' u = i" by simp
  then obtain pre u post
    where split: "users = pre @ u # post" "id' u = i" "\<forall>x\<in>set pre. id' x \<noteq> i"
    using first_match [of users "\<lambda>u. id' u = i"] by blast
  then have "snd (Mutation_deleteUser i users) = pre @ post"
    by (simp add: deleteUser_first)
  moreover have "subseq post (u # post)"
    by (rule list_emb_Cons) simp
  then have "subseq (pre @ post) (pre @ u # post)"
    by (simp only: subseq_append')
  ultimately show ?thesis
    using split by simp
qed

lemma run_subseq:
  "subseq (run ms users) (users @ created ms users)"
proof (induction ms arbitrary: users)
  case Nil
  then show ?case by simp
next
  case (Cons m ms)
  show ?case
  proof (cases m)
    case (CreateUser un em)
    with Cons.IH [of "dispatch m users"] show ?thesis
      by (simp add: createUser_eq)
  next
    case (DeleteUser i)
    have "subseq (dispatch m users @ created ms (dispatch m users))
            (users @ created ms (dispatch m users))"
      using DeleteUser by (simp add: deleteUser_subseq list_emb_append_mono)
    with Cons.IH [of "dispatch m users"] DeleteUser show ?thesis
      using subseq_order.order_trans by fastforce
  qed
qed

lemma String_js_3: "String_js 3 = ''3''"
  by (simp add: String_js.simps digit_def)

lemma String_js_4: "String_js 4 = ''4''"
  by (simp add: String_js.simps digit_def)

lemma String_js_examples:
  "String_js 0 = ''0'' \<and> String_js 10 = ''10'' \<and> String_js 4096 = ''4096''"
  by (simp add: String_js.simps digit_def)

section \<open>Properties\<close>

text \<open>
  C3. For every array and every username and email, \<^verbatim>\<open>createUser\<close> returns an entry whose
  id is \<^verbatim>\<open>String(length + 1)\<close> of the array before the call and whose username and email
  are the arguments, and the array afterwards is the array before with exactly that entry
  added at the end: one entry longer, every earlier entry unchanged and in place.
\<close>

theorem createUser_appends:
  "Mutation_createUser un em users =
     (Inr \<lparr>id' = String_js (length users + 1), username = un, email = em\<rparr>,
      users @ [\<lparr>id' = String_js (length users + 1), username = un, email = em\<rparr>])
   \<and> length (snd (Mutation_createUser un em users)) = length users + 1
   \<and> take (length users) (snd (Mutation_createUser un em users)) = users
   \<and> fst (Mutation_createUser un em users) = Inr (last (snd (Mutation_createUser un em users)))"
  by (simp add: Mutation_createUser_def push_def Let_def)

text \<open>
  C1. For every array and every id, \<^verbatim>\<open>deleteUser\<close> throws the "User not found" error
  exactly when no entry of the array has that id; whenever it throws, the error is that one
  and the array afterwards is the array before the call.
\<close>

theorem deleteUser_raises_iff_absent:
  "(fst (Mutation_deleteUser i users) = Inl (Error ''User not found''))
     = (\<forall>u\<in>set users. id' u \<noteq> i)
   \<and> (isl (fst (Mutation_deleteUser i users))) = (\<forall>u\<in>set users. id' u \<noteq> i)
   \<and> (isl (fst (Mutation_deleteUser i users)) \<longrightarrow>
        Mutation_deleteUser i users = (Inl (Error ''User not found''), users))"
proof (cases "\<forall>u\<in>set users. id' u \<noteq> i")
  case True
  then show ?thesis
    by (simp add: deleteUser_absent)
next
  case False
  then have "\<exists>u\<in>set users. id' u = i" by simp
  then obtain pre u post
    where "users = pre @ u # post" "id' u = i" "\<forall>x\<in>set pre. id' x \<noteq> i"
    using first_match [of users "\<lambda>u. id' u = i"] by blast
  then have "Mutation_deleteUser i users = (Inr (Some u), pre @ post)"
    by (simp add: deleteUser_first)
  with False show ?thesis by simp
qed

theorem deleteUser_raises_iff_absent_witness:
  "Mutation_deleteUser ''999'' users_init = (Inl (Error ''User not found''), users_init)
   \<and> isl (fst (Mutation_deleteUser ''999'' users_init))
   \<and> \<not> isl (fst (Mutation_deleteUser ''1'' users_init))"
proof -
  have absent: "\<forall>u\<in>set users_init. id' u \<noteq> ''999''"
    by (simp add: users_init_def)
  have present: "\<not> (\<forall>u\<in>set users_init. id' u \<noteq> ''1'')"
    by (simp add: users_init_def)
  show ?thesis
    using absent present
      deleteUser_raises_iff_absent [of "''999''" users_init]
      deleteUser_raises_iff_absent [of "''1''" users_init]
    by blast
qed

text \<open>
  C4. For every array with at least one entry of the given id, \<^verbatim>\<open>deleteUser\<close> removes
  the first entry whose id is the argument and returns it: the array before the call is
  \<open>pre @ u # post\<close> with no entry of that id in \<open>pre\<close>, the result is \<open>u\<close>, and the array
  afterwards is \<open>pre @ post\<close>, so it is one entry shorter and every other entry keeps its
  value and its relative position.
\<close>

theorem deleteUser_removes_first:
  assumes "\<exists>u\<in>set users. id' u = i"
  shows "\<exists>pre u post.
           users = pre @ u # post \<and> id' u = i \<and> (\<forall>x\<in>set pre. id' x \<noteq> i)
           \<and> Mutation_deleteUser i users = (Inr (Some u), pre @ post)
           \<and> length (snd (Mutation_deleteUser i users)) + 1 = length users"
proof -
  from assms obtain pre u post
    where split: "users = pre @ u # post" "id' u = i" "\<forall>x\<in>set pre. id' x \<noteq> i"
    using first_match [of users "\<lambda>u. id' u = i"] by blast
  then have "Mutation_deleteUser i users = (Inr (Some u), pre @ post)"
    by (simp add: deleteUser_first)
  with split show ?thesis by auto
qed

theorem deleteUser_removes_first_witness:
  "(\<exists>u\<in>set [\<lparr>id' = ''1'', username = ''a'', email = ''b''\<rparr>,
          \<lparr>id' = ''2'', username = ''c'', email = ''d''\<rparr>,
          \<lparr>id' = ''2'', username = ''e'', email = ''f''\<rparr>]. id' u = ''2'')
   \<and> (\<exists>pre u post.
         [\<lparr>id' = ''1'', username = ''a'', email = ''b''\<rparr>,
          \<lparr>id' = ''2'', username = ''c'', email = ''d''\<rparr>,
          \<lparr>id' = ''2'', username = ''e'', email = ''f''\<rparr>] = pre @ u # post \<and> id' u = ''2'' \<and> (\<forall>x\<in>set pre. id' x \<noteq> ''2'')
         \<and> Mutation_deleteUser ''2''
              [\<lparr>id' = ''1'', username = ''a'', email = ''b''\<rparr>,
          \<lparr>id' = ''2'', username = ''c'', email = ''d''\<rparr>,
          \<lparr>id' = ''2'', username = ''e'', email = ''f''\<rparr>] = (Inr (Some u), pre @ post)
         \<and> length (snd (Mutation_deleteUser ''2''
              [\<lparr>id' = ''1'', username = ''a'', email = ''b''\<rparr>,
          \<lparr>id' = ''2'', username = ''c'', email = ''d''\<rparr>,
          \<lparr>id' = ''2'', username = ''e'', email = ''f''\<rparr>])) + 1 = length
              [\<lparr>id' = ''1'', username = ''a'', email = ''b''\<rparr>,
          \<lparr>id' = ''2'', username = ''c'', email = ''d''\<rparr>,
          \<lparr>id' = ''2'', username = ''e'', email = ''f''\<rparr>])
   \<and> Mutation_deleteUser ''2''
         [\<lparr>id' = ''1'', username = ''a'', email = ''b''\<rparr>,
          \<lparr>id' = ''2'', username = ''c'', email = ''d''\<rparr>,
          \<lparr>id' = ''2'', username = ''e'', email = ''f''\<rparr>]
       = (Inr (Some \<lparr>id' = ''2'', username = ''c'', email = ''d''\<rparr>),
          [\<lparr>id' = ''1'', username = ''a'', email = ''b''\<rparr>,
           \<lparr>id' = ''2'', username = ''e'', email = ''f''\<rparr>])"
proof -
  let ?users = "[\<lparr>id' = ''1'', username = ''a'', email = ''b''\<rparr>,
          \<lparr>id' = ''2'', username = ''c'', email = ''d''\<rparr>,
          \<lparr>id' = ''2'', username = ''e'', email = ''f''\<rparr>]"
  have present: "\<exists>u\<in>set ?users. id' u = ''2''"
    by simp
  have removed: "Mutation_deleteUser ''2'' ?users
       = (Inr (Some \<lparr>id' = ''2'', username = ''c'', email = ''d''\<rparr>),
          [\<lparr>id' = ''1'', username = ''a'', email = ''b''\<rparr>,
           \<lparr>id' = ''2'', username = ''e'', email = ''f''\<rparr>])"
    by (simp add: Mutation_deleteUser_def findIndex_def splice_def index0_def Let_def)
  from deleteUser_removes_first [OF present] present removed show ?thesis
    by blast
qed

text \<open>
  C5. For every array and every id, \<^verbatim>\<open>user\<close> returns the first entry whose id is the
  argument when there is one, and the empty result (no entry, and no error) when no entry
  has that id.
\<close>

theorem user_first_or_null:
  "((\<exists>u\<in>set users. id' u = i) \<longrightarrow>
      (\<exists>pre u post.
         users = pre @ u # post \<and> id' u = i \<and> (\<forall>x\<in>set pre. id' x \<noteq> i)
         \<and> fst (Query_user i users) = Inr (Some u)))
   \<and> ((\<forall>u\<in>set users. id' u \<noteq> i) \<longrightarrow> fst (Query_user i users) = Inr None)"
proof (intro conjI impI)
  assume "\<exists>u\<in>set users. id' u = i"
  then obtain pre u post
    where split: "users = pre @ u # post" "id' u = i" "\<forall>x\<in>set pre. id' x \<noteq> i"
    using first_match [of users "\<lambda>u. id' u = i"] by blast
  then have "fst (Query_user i users) = Inr (Some u)"
    by (simp add: Query_user_def find_js_first)
  with split show "\<exists>pre u post.
         users = pre @ u # post \<and> id' u = i \<and> (\<forall>x\<in>set pre. id' x \<noteq> i)
         \<and> fst (Query_user i users) = Inr (Some u)"
    by blast
next
  assume "\<forall>u\<in>set users. id' u \<noteq> i"
  then show "fst (Query_user i users) = Inr None"
    by (simp add: Query_user_def find_js_absent)
qed

theorem user_first_or_null_witness:
  "(\<exists>u\<in>set [\<lparr>id' = ''1'', username = ''a'', email = ''b''\<rparr>,
          \<lparr>id' = ''2'', username = ''c'', email = ''d''\<rparr>,
          \<lparr>id' = ''2'', username = ''e'', email = ''f''\<rparr>]. id' u = ''2'')
   \<and> (\<exists>pre u post.
         [\<lparr>id' = ''1'', username = ''a'', email = ''b''\<rparr>,
          \<lparr>id' = ''2'', username = ''c'', email = ''d''\<rparr>,
          \<lparr>id' = ''2'', username = ''e'', email = ''f''\<rparr>] = pre @ u # post \<and> id' u = ''2'' \<and> (\<forall>x\<in>set pre. id' x \<noteq> ''2'')
         \<and> fst (Query_user ''2''
              [\<lparr>id' = ''1'', username = ''a'', email = ''b''\<rparr>,
          \<lparr>id' = ''2'', username = ''c'', email = ''d''\<rparr>,
          \<lparr>id' = ''2'', username = ''e'', email = ''f''\<rparr>]) = Inr (Some u))
   \<and> fst (Query_user ''2''
         [\<lparr>id' = ''1'', username = ''a'', email = ''b''\<rparr>,
          \<lparr>id' = ''2'', username = ''c'', email = ''d''\<rparr>,
          \<lparr>id' = ''2'', username = ''e'', email = ''f''\<rparr>]) = Inr (Some \<lparr>id' = ''2'', username = ''c'', email = ''d''\<rparr>)
   \<and> fst (Query_user ''999'' users_init) = Inr None"
proof -
  let ?users = "[\<lparr>id' = ''1'', username = ''a'', email = ''b''\<rparr>,
          \<lparr>id' = ''2'', username = ''c'', email = ''d''\<rparr>,
          \<lparr>id' = ''2'', username = ''e'', email = ''f''\<rparr>]"
  have present: "\<exists>u\<in>set ?users. id' u = ''2''"
    by simp
  have found: "fst (Query_user ''2'' ?users)
                 = Inr (Some \<lparr>id' = ''2'', username = ''c'', email = ''d''\<rparr>)"
    by (simp add: Query_user_def)
  have absent: "\<forall>u\<in>set users_init. id' u \<noteq> ''999''"
    by (simp add: users_init_def)
  show ?thesis
    using present found absent
      user_first_or_null [of ?users "''2''"]
      user_first_or_null [of users_init "''999''"]
    by blast
qed

text \<open>
  C6. For every array, \<^verbatim>\<open>users\<close> returns the whole array as it is and does not throw.
  The array is in insertion order: after any sequence of mutations from any starting array,
  what \<^verbatim>\<open>users\<close> returns is the starting array followed by the created entries in the
  order of their creation, with some entries left out and no entry moved.
\<close>

theorem users_returns_list:
  "fst (Query_users users) = Inr users
   \<and> fst (Query_users (run ms users)) = Inr (run ms users)
   \<and> subseq (run ms users) (users @ created ms users)"
  by (simp add: Query_users_def run_subseq)

text \<open>
  C7. Before any mutation the array holds the two seeded entries, which \<^verbatim>\<open>users\<close> returns
  in that order, and \<^verbatim>\<open>user\<close> with id "1" returns the first of them.
\<close>

theorem seeded_users:
  "fst (Query_users users_init) =
     Inr [\<lparr>id' = ''1'', username = ''john_doe'', email = ''john@example.com''\<rparr>,
          \<lparr>id' = ''2'', username = ''jane_smith'', email = ''jane@example.com''\<rparr>]
   \<and> fst (Query_user ''1'' users_init) =
     Inr (Some \<lparr>id' = ''1'', username = ''john_doe'', email = ''john@example.com''\<rparr>)"
  by (simp add: Query_users_def Query_user_def users_init_def)

text \<open>
  C8. For every array and all arguments, \<^verbatim>\<open>users\<close>, \<^verbatim>\<open>user\<close> and \<^verbatim>\<open>createUser\<close> do not
  throw; \<^verbatim>\<open>deleteUser\<close> either returns a result or throws the "User not found" error.
\<close>

theorem only_deleteUser_raises:
  "fst (Query_users users) \<noteq> Inl e
   \<and> fst (Query_user i users) \<noteq> Inl e
   \<and> fst (Mutation_createUser un em users) \<noteq> Inl e
   \<and> ((\<exists>r. fst (Mutation_deleteUser i users) = Inr r)
        \<or> fst (Mutation_deleteUser i users) = Inl (Error ''User not found''))"
proof -
  have "(\<exists>r. fst (Mutation_deleteUser i users) = Inr r)
        \<or> fst (Mutation_deleteUser i users) = Inl (Error ''User not found'')"
    by (simp add: Mutation_deleteUser_def Let_def split: prod.split)
  then show ?thesis
    by (simp add: Query_users_def Query_user_def createUser_eq)
qed

text \<open>
  C9. The two queries are read-only: for every array and every id, the array after
  \<^verbatim>\<open>users\<close> and after \<^verbatim>\<open>user\<close> is the array before the call.
\<close>

theorem queries_read_only:
  "snd (Query_users users) = users \<and> snd (Query_user i users) = users"
  by (simp add: Query_users_def Query_user_def)

text \<open>
  C2. The operations do not keep ids unique. From the seeded array, whatever the usernames
  and emails: \<^verbatim>\<open>createUser\<close> (id "3"), \<^verbatim>\<open>createUser\<close> (id "4"), at which point all ids
  differ, then \<^verbatim>\<open>deleteUser\<close> of the first created entry's id, then \<^verbatim>\<open>createUser\<close> again:
  the third created entry gets the id "4" of the second created entry, which is still in
  the array, so the array holds two entries of one id.
\<close>

theorem duplicate_id_after_delete:
  "\<exists>c1 s1 c2 s2 s3 c3 s4.
     Mutation_createUser un1 em1 users_init = (Inr c1, s1)
     \<and> Mutation_createUser un2 em2 s1 = (Inr c2, s2)
     \<and> distinct (map id' users_init) \<and> distinct (map id' s2)
     \<and> Mutation_deleteUser (id' c1) s2 = (Inr (Some c1), s3)
     \<and> Mutation_createUser un3 em3 s3 = (Inr c3, s4)
     \<and> s3 = users_init @ [c2] \<and> s4 = users_init @ [c2, c3]
     \<and> id' c2 = ''4'' \<and> id' c3 = id' c2
     \<and> \<not> distinct (map id' s4)"
proof -
  let ?c1 = "\<lparr>id' = ''3'', username = un1, email = em1\<rparr>"
  let ?c2 = "\<lparr>id' = ''4'', username = un2, email = em2\<rparr>"
  let ?c3 = "\<lparr>id' = ''4'', username = un3, email = em3\<rparr>"
  have len2: "length users_init + 1 = 3"
    by (simp add: users_init_def)
  have len3: "length (users_init @ [?c1]) + 1 = 4" "length (users_init @ [?c2]) + 1 = 4"
    by (simp_all add: users_init_def)
  have step1: "Mutation_createUser un1 em1 users_init = (Inr ?c1, users_init @ [?c1])"
    by (simp only: createUser_eq len2 String_js_3)
  have step2: "Mutation_createUser un2 em2 (users_init @ [?c1])
                 = (Inr ?c2, users_init @ [?c1, ?c2])"
    by (simp only: createUser_eq len3 String_js_4) simp
  have seeded: "\<forall>x\<in>set users_init. id' x \<noteq> ''3''"
    by (simp add: users_init_def)
  have step3: "Mutation_deleteUser (id' ?c1) (users_init @ [?c1, ?c2])
                 = (Inr (Some ?c1), users_init @ [?c2])"
    using deleteUser_first [of users_init "''3''" ?c1 "[?c2]"] seeded by simp
  have step4: "Mutation_createUser un3 em3 (users_init @ [?c2])
                 = (Inr ?c3, users_init @ [?c2, ?c3])"
    by (simp only: createUser_eq len3 String_js_4) simp
  have ids: "distinct (map id' users_init)" "distinct (map id' (users_init @ [?c1, ?c2]))"
    "\<not> distinct (map id' (users_init @ [?c2, ?c3]))"
    by (simp_all add: users_init_def)
  have same: "id' ?c2 = ''4''" "id' ?c3 = id' ?c2"
    by simp_all
  from step1 step2 step3 step4 ids same show ?thesis
    by blast
qed

text \<open>
  C10. For every array in which no entry has the id \<^verbatim>\<open>String(length + 1)\<close>,
  \<^verbatim>\<open>createUser\<close> followed by \<^verbatim>\<open>deleteUser\<close> of the returned entry's id returns that entry
  and leaves the array as it was before the two calls. When an entry of the array already
  has that id, \<^verbatim>\<open>deleteUser\<close> removes and returns the first such entry instead, and the
  created entry stays at the end.
\<close>

theorem createUser_deleteUser_roundtrip:
  "((\<forall>y\<in>set users. id' y \<noteq> String_js (length users + 1)) \<longrightarrow>
      (\<exists>c users'. Mutation_createUser un em users = (Inr c, users')
         \<and> Mutation_deleteUser (id' c) users' = (Inr (Some c), users)))
   \<and> (users = pre @ x # post \<and> id' x = String_js (length users + 1)
        \<and> (\<forall>y\<in>set pre. id' y \<noteq> String_js (length users + 1)) \<longrightarrow>
      (\<exists>c users'. Mutation_createUser un em users = (Inr c, users')
         \<and> Mutation_deleteUser (id' c) users' = (Inr (Some x), pre @ post @ [c])))"
proof (intro conjI impI)
  let ?c = "\<lparr>id' = String_js (length users + 1), username = un, email = em\<rparr>"
  assume "\<forall>y\<in>set users. id' y \<noteq> String_js (length users + 1)"
  then have "Mutation_deleteUser (id' ?c) (users @ ?c # []) = (Inr (Some ?c), users @ [])"
    by (intro deleteUser_first) simp_all
  then show "\<exists>c users'. Mutation_createUser un em users = (Inr c, users')
         \<and> Mutation_deleteUser (id' c) users' = (Inr (Some c), users)"
    by (simp add: createUser_eq)
next
  assume taken: "users = pre @ x # post \<and> id' x = String_js (length users + 1)
        \<and> (\<forall>y\<in>set pre. id' y \<noteq> String_js (length users + 1))"
  define n where "n = String_js (length users + 1)"
  define c where "c = \<lparr>id' = n, username = un, email = em\<rparr>"
  from taken have split: "users = pre @ x # post"
    and first: "\<forall>y\<in>set pre. id' y \<noteq> n" "id' x = n"
    unfolding n_def by blast+
  from first have "Mutation_deleteUser n (pre @ x # (post @ [c]))
                     = (Inr (Some x), pre @ (post @ [c]))"
    by (rule deleteUser_first)
  with split have deleted: "Mutation_deleteUser (id' c) (users @ [c])
                     = (Inr (Some x), pre @ post @ [c])"
    by (simp add: c_def)
  have "Mutation_createUser un em users = (Inr c, users @ [c])"
    by (simp add: createUser_eq c_def n_def)
  with deleted show "\<exists>c users'. Mutation_createUser un em users = (Inr c, users')
         \<and> Mutation_deleteUser (id' c) users' = (Inr (Some x), pre @ post @ [c])"
    by blast
qed

theorem createUser_deleteUser_roundtrip_witness:
  "(\<exists>c users'. Mutation_createUser ''a'' ''b'' users_init = (Inr c, users')
      \<and> Mutation_deleteUser (id' c) users' = (Inr (Some c), users_init))
   \<and> (\<exists>c users'.
        Mutation_createUser ''c'' ''d'' [\<lparr>id' = ''2'', username = ''a'', email = ''b''\<rparr>]
          = (Inr c, users')
        \<and> Mutation_deleteUser (id' c) users'
          = (Inr (Some \<lparr>id' = ''2'', username = ''a'', email = ''b''\<rparr>), [] @ [] @ [c]))"
proof -
  have free: "\<forall>y\<in>set users_init. id' y \<noteq> String_js (length users_init + 1)"
    by (simp add: users_init_def String_js.simps digit_def)
  have taken:
    "[\<lparr>id' = ''2'', username = ''a'', email = ''b''\<rparr>]
       = [] @ \<lparr>id' = ''2'', username = ''a'', email = ''b''\<rparr> # []
     \<and> id' \<lparr>id' = ''2'', username = ''a'', email = ''b''\<rparr>
       = String_js (length [\<lparr>id' = ''2'', username = ''a'', email = ''b''\<rparr>] + 1)
     \<and> (\<forall>y\<in>set []. id' y
           \<noteq> String_js (length [\<lparr>id' = ''2'', username = ''a'', email = ''b''\<rparr>] + 1))"
    by (simp add: String_js.simps digit_def)
  show ?thesis
    using free taken
      createUser_deleteUser_roundtrip [of users_init "''a''" "''b''"]
      createUser_deleteUser_roundtrip
        [of "[\<lparr>id' = ''2'', username = ''a'', email = ''b''\<rparr>]" "''c''" "''d''"
            "[]" "\<lparr>id' = ''2'', username = ''a'', email = ''b''\<rparr>" "[]"]
    by blast
qed

end
